theory Spec2Isabelle
  imports Main "HOL-Library.Sublist" "HOL-Library.AList"
begin

section \<open>Strings as the aggregation function uses them\<close>

text \<open>
  A string is a list of code units below 256 (\<^typ>\<open>char\<close>), so \<open>length\<close>, \<open>take\<close> and
  \<open>drop\<close> count what \<open>String.prototype.slice\<close> counts. On this range \<open>toLowerCase\<close>
  changes exactly the letters A..Z and the Latin-1 capitals (192..222 without the
  multiplication sign 215), and the white space of \<open>trim\<close> and of the pattern \<open>\s\<close> is
  9..13, 32 and 160. Text with code units from 256 on is outside the model.
\<close>

definition code :: "char \<Rightarrow> nat" where
  "code c = of_char c"

definition toLowerChar :: "char \<Rightarrow> char" where
  "toLowerChar c =
     (let n = code c
      in if (65 \<le> n \<and> n \<le> 90) \<or> (192 \<le> n \<and> n \<le> 222 \<and> n \<noteq> 215)
         then char_of (n + 32) else c)"

definition toLowerCase :: "string \<Rightarrow> string" where
  "toLowerCase s = map toLowerChar s"

text \<open>\<open>text.includes(k)\<close>: \<open>k\<close> occurs in \<open>text\<close> as a contiguous run.\<close>

fun includes_str :: "string \<Rightarrow> string \<Rightarrow> bool" where
  "includes_str [] k = (k = [])"
| "includes_str (c # cs) k = (prefix k (c # cs) \<or> includes_str cs k)"

definition isSpace :: "char \<Rightarrow> bool" where
  "isSpace c = (let n = code c in (9 \<le> n \<and> n \<le> 13) \<or> n = 32 \<or> n = 160)"

definition trim :: "string \<Rightarrow> string" where
  "trim s = rev (dropWhile isSpace (rev (dropWhile isSpace s)))"

text \<open>
  \<open>s.replace(/<[^>]*>/g, "")\<close>: scanning from the left, a \<open><\<close> that has a \<open>>\<close> somewhere
  after it is removed together with everything up to the first such \<open>>\<close>; a \<open><\<close> with
  no \<open>>\<close> after it stays.
\<close>

function stripTags :: "string \<Rightarrow> string" where
  "stripTags [] = []"
| "stripTags (c # cs) =
     (if c = CHR ''<'' \<and> CHR ''>'' \<in> set cs
      then stripTags (tl (dropWhile (\<lambda>x. x \<noteq> CHR ''>'') cs))
      else c # stripTags cs)"
  by pat_completeness auto
termination
proof (relation "measure length")
  fix c :: char and cs :: string
  have "length (tl (dropWhile (\<lambda>x. x \<noteq> CHR ''>'') cs)) \<le> length cs"
    using length_dropWhile_le [of "\<lambda>x. x \<noteq> CHR ''>''" cs] by simp
  then show "(tl (dropWhile (\<lambda>x. x \<noteq> CHR ''>'') cs), c # cs) \<in> measure length"
    by simp
qed simp_all

text \<open>\<open>s.replace(/\s+/g, " ")\<close>: every maximal run of white space becomes one blank.\<close>

function collapseSpaces :: "string \<Rightarrow> string" where
  "collapseSpaces [] = []"
| "collapseSpaces (c # cs) =
     (if isSpace c then CHR '' '' # collapseSpaces (dropWhile isSpace cs)
      else c # collapseSpaces cs)"
  by pat_completeness auto
termination
  by (relation "measure length") (auto simp: length_dropWhile_le le_imp_less_Suc)

definition isLowerAlnum :: "char \<Rightarrow> bool" where
  "isLowerAlnum c = (let n = code c in (97 \<le> n \<and> n \<le> 122) \<or> (48 \<le> n \<and> n \<le> 57))"

definition isAlnum :: "char \<Rightarrow> bool" where
  "isAlnum c = (let n = code c in (97 \<le> n \<and> n \<le> 122) \<or> (65 \<le> n \<and> n \<le> 90) \<or> (48 \<le> n \<and> n \<le> 57))"

subsection \<open>\<open>Buffer.from(s).toString("base64")\<close>\<close>

definition utf8 :: "string \<Rightarrow> nat list" where
  "utf8 s = concat (map (\<lambda>c. let n = code c
                             in if n < 128 then [n] else [192 + n div 64, 128 + n mod 64]) s)"

definition b64char :: "nat \<Rightarrow> char" where
  "b64char n = ''ABCDEFGHIJKLMNOPQRSTUVWXYZabcdefghijklmnopqrstuvwxyz0123456789+/'' ! (n mod 64)"

fun base64 :: "nat list \<Rightarrow> string" where
  "base64 [] = []"
| "base64 [a] = [b64char (a div 4), b64char ((a mod 4) * 16), CHR ''='', CHR ''='']"
| "base64 [a, b] =
     [b64char (a div 4), b64char ((a mod 4) * 16 + b div 16), b64char ((b mod 16) * 4), CHR ''='']"
| "base64 (a # b # c # rest) =
     [b64char (a div 4), b64char ((a mod 4) * 16 + b div 16),
      b64char ((b mod 16) * 4 + c div 64), b64char (c mod 64)] @ base64 rest"

section \<open>The static registries\<close>

record source =
  id' :: string
  name :: string
  fullName :: string
  color :: string
  feeds :: "string list"

definition hinduSource :: source where
  "hinduSource =
     \<lparr>id' = ''hindu'', name = ''The Hindu'', fullName = ''The Hindu'', color = ''#DC2626'',
      feeds = [''https://www.thehindu.com/news/national/feeder/default.rss'',
               ''https://www.thehindu.com/opinion/feeder/default.rss'',
               ''https://www.thehindu.com/sci-tech/feeder/default.rss'',
               ''https://www.thehindu.com/business/Economy/feeder/default.rss'',
               ''https://www.thehindu.com/news/international/feeder/default.rss'']\<rparr>"

definition expressSource :: source where
  "expressSource =
     \<lparr>id' = ''indianexpress'', name = ''Indian Express'', fullName = ''The Indian Express'',
      color = ''#2563EB'',
      feeds = [''https://indianexpress.com/section/india/feed/'',
               ''https://indianexpress.com/section/opinion/feed/'',
               ''https://indianexpress.com/section/explained/feed/'',
               ''https://indianexpress.com/section/economy/feed/'',
               ''https://indianexpress.com/section/world/feed/'']\<rparr>"

definition etSource :: source where
  "etSource =
     \<lparr>id' = ''et'', name = ''Economic Times'', fullName = ''The Economic Times'',
      color = ''#059669'',
      feeds = [''https://economictimes.indiatimes.com/news/economy/rssfeeds/1373380680.cms'',
               ''https://economictimes.indiatimes.com/news/politics-and-nation/rssfeeds/1052732854.cms'',
               ''https://economictimes.indiatimes.com/environment/rssfeeds/22977979.cms'',
               ''https://economictimes.indiatimes.com/news/india/rssfeeds/13357270.cms'']\<rparr>"

definition RSS_SOURCES :: "source list" where
  "RSS_SOURCES = [hinduSource, expressSource, etSource]"

text \<open>\<open>UPSC_TOPICS\<close> in the order of its keys, which is the order \<open>Object.entries\<close>,
  \<open>Object.values\<close> and \<open>Object.keys\<close> enumerate.\<close>

definition UPSC_TOPICS :: "(string \<times> string list) list" where
  "UPSC_TOPICS =
    [(''Polity & Governance'',
      [''parliament'', ''constitution'', ''supreme court'', ''high court'', ''election'',
       ''amendment'', ''bill'', ''act'', ''ministry'', ''government'', ''cabinet'', ''president'',
       ''governor'', ''lok sabha'', ''rajya sabha'', ''judiciary'', ''panchayat'', ''governance'',
       ''reform'', ''policy'', ''commission'', ''ordinance'']),
     (''Economy'',
      [''gdp'', ''inflation'', ''rbi'', ''sebi'', ''budget'', ''fiscal'', ''monetary'', ''repo rate'',
       ''economy'', ''trade'', ''export'', ''import'', ''fdi'', ''startup'', ''msme'', ''agriculture'',
       ''msp'', ''niti aayog'', ''economic'', ''tax'', ''gst'', ''growth'', ''market'', ''rupee'',
       ''investment'', ''revenue'', ''finance'', ''bank'']),
     (''Environment & Ecology'',
      [''climate'', ''biodiversity'', ''forest'', ''wildlife'', ''pollution'', ''carbon'', ''emission'',
       ''renewable'', ''solar'', ''ozone'', ''ramsar'', ''tiger'', ''elephant'', ''coral'', ''wetland'',
       ''deforestation'', ''net zero'', ''cop'', ''ipcc'', ''ecology'', ''conservation'',
       ''environment'', ''water'', ''river'', ''drought'']),
     (''Science & Technology'',
      [''isro'', ''space'', ''nasa'', ''satellite'', ''ai'', ''artificial intelligence'', ''quantum'',
       ''nuclear'', ''research'', ''technology'', ''5g'', ''semiconductor'', ''drone'', ''cyber'',
       ''digital'', ''blockchain'', ''genomics'', ''innovation'', ''patent'', ''rocket'', ''launch'']),
     (''International Relations'',
      [''bilateral'', ''treaty'', ''summit'', ''united nations'', ''world bank'', ''imf'', ''wto'',
       ''g20'', ''brics'', ''sco'', ''asean'', ''nato'', ''geopolitics'', ''diplomacy'', ''foreign'',
       ''sanctions'', ''agreement'', ''alliance'', ''visit'', ''mou'', ''quad'']),
     (''Social Issues'',
      [''poverty'', ''welfare'', ''scheme'', ''education'', ''health'', ''nutrition'', ''women'',
       ''child'', ''tribal'', ''dalit'', ''minority'', ''reservation'', ''caste'', ''disability'',
       ''elderly'', ''hunger'', ''literacy'', ''inequality'', ''yojana'', ''programme'']),
     (''Defence & Security'',
      [''defence'', ''military'', ''army'', ''navy'', ''air force'', ''border'', ''security'',
       ''terrorism'', ''naxal'', ''insurgency'', ''weapon'', ''missile'', ''drdo'', ''iaf'',
       ''coast guard'', ''exercise'', ''combat'', ''strategic'']),
     (''Infrastructure & Development'',
      [''railway'', ''highway'', ''port'', ''airport'', ''metro'', ''smart city'', ''urban'',
       ''housing'', ''construction'', ''energy'', ''power'', ''grid'', ''infrastructure'',
       ''expressway'', ''corridor'', ''project'', ''bridge'', ''dam''])]"

definition ALL_KEYWORDS :: "string list" where
  "ALL_KEYWORDS = concat (map snd UPSC_TOPICS)"

section \<open>Relevance and classification\<close>

definition detectTopics :: "string \<Rightarrow> string \<Rightarrow> string list" where
  "detectTopics title description =
     (let text = toLowerCase (title @ '' '' @ description);
          matched = map fst (filter (\<lambda>(topic, keywords). list_ex (includes_str text) keywords)
                                    UPSC_TOPICS)
      in if matched \<noteq> [] then take 3 matched else [''General''])"

definition isRelevant :: "string \<Rightarrow> string \<Rightarrow> bool" where
  "isRelevant title description =
     (let text = toLowerCase (title @ '' '' @ description)
      in list_ex (includes_str text) ALL_KEYWORDS \<or> includes_str text ''india''
         \<or> includes_str text ''government'')"

section \<open>What one endpoint delivers\<close>

text \<open>
  With \<open>explicitArray: false\<close> and \<open>ignoreAttrs: false\<close> the XML parser hands over a child
  element as a string when it has text only, and as an object with the attributes under
  \<open>$\<close> and the text, if any, under \<open>_\<close> otherwise. A property that is missing is
  \<open>undefined\<close>. An entry is an object from property names to such values. Repeated
  elements, which the XML parser turns into arrays, are outside the model.
\<close>

datatype xml_value = Undefined | Str string | Node "(string \<times> string) list" "string option"

type_synonym entry = "(string \<times> xml_value) list"

datatype feed_doc = RssChannel "entry list" | AtomFeed "entry list" | OtherDoc

text \<open>
  The ways one \<open>parseFeed\<close> call can go: \<open>fetch\<close> rejects (network error, or the abort
  after 9000 ms while the headers are awaited), the status is not 2xx, reading the body
  rejects, the body never arrives, the XML parser rejects, or a document comes out. The
  timer of the abort is cleared as soon as \<open>fetch\<close> resolves, before the body is read, so
  nothing ends the wait for a body that stalls. \<open>RssChannel\<close> holds
  \<open>result.rss.channel.item\<close> and \<open>AtomFeed\<close> holds \<open>result.feed.entry\<close>, a single object
  as a list of one and a missing property as the empty list.
\<close>

datatype fetched =
  FetchRejected | StatusNotOk | TextRejected | BodyStalls | XmlRejected | Parsed feed_doc

text \<open>
  \<open>settledAt\<close> is the moment the promise of the call settles, when it does, and
  \<open>clock i\<close> is what \<open>new Date()\<close> reads while the entry at position \<open>i\<close> is mapped.
\<close>

record endpoint_run =
  settledAt :: nat
  clock :: "nat \<Rightarrow> int"
  fetched :: fetched

datatype js_error = TypeError | RangeError

definition getProp :: "entry \<Rightarrow> string \<Rightarrow> xml_value" where
  "getProp item k = (case map_of item k of None \<Rightarrow> Undefined | Some v \<Rightarrow> v)"

fun truthy :: "xml_value \<Rightarrow> bool" where
  "truthy Undefined = False"
| "truthy (Str s) = (s \<noteq> [])"
| "truthy (Node a t) = True"

text \<open>\<open>v?._\<close> and \<open>v?.$?.k\<close>.\<close>

fun text_of :: "xml_value \<Rightarrow> xml_value" where
  "text_of (Node a (Some s)) = Str s"
| "text_of v = Undefined"

fun attr_of :: "xml_value \<Rightarrow> string \<Rightarrow> xml_value" where
  "attr_of (Node a t) k = (case map_of a k of None \<Rightarrow> Undefined | Some s \<Rightarrow> Str s)"
| "attr_of v k = Undefined"

text \<open>
  \<open>v1 || ... || vn || ""\<close>, used as the receiver of a string method: the first truthy
  value when it is a string, the empty string when none is truthy, and a \<open>TypeError\<close>
  when the first truthy value is an object, which has no \<open>replace\<close> and no \<open>slice\<close>.
\<close>

definition orString :: "xml_value list \<Rightarrow> js_error + string" where
  "orString vs =
     (case find truthy vs of
        None \<Rightarrow> Inr []
      | Some (Str s) \<Rightarrow> Inr s
      | Some v \<Rightarrow> Inl TypeError)"

text \<open>
  \<open>item.pubDate || item.updated || item["dc:date"] || new Date().toISOString()\<close> is one of
  the three properties or the present moment.
\<close>

datatype date_source = Given xml_value | Now

definition pubDateRaw :: "entry \<Rightarrow> date_source" where
  "pubDateRaw item =
     (case find truthy [getProp item ''pubDate'', getProp item ''updated'', getProp item ''dc:date''] of
        None \<Rightarrow> Now
      | Some v \<Rightarrow> Given v)"

text \<open>
  \<open>new Date(raw).toISOString()\<close>. The date parser of the engine is the parameter
  \<open>dateParse\<close>: the time value in milliseconds, or \<open>None\<close> for an invalid date, on which
  \<open>toISOString\<close> throws a \<open>RangeError\<close>. An object is first converted to the string
  \<open>[object Object]\<close>. A publish date is kept as its time value: \<open>toISOString\<close> and
  \<open>new Date\<close> of an ISO string are inverse to each other on valid dates.
\<close>

definition toISOString :: "(string \<Rightarrow> int option) \<Rightarrow> int \<Rightarrow> date_source \<Rightarrow> js_error + int" where
  "toISOString dateParse now raw =
     (case raw of
        Now \<Rightarrow> Inr now
      | Given v \<Rightarrow>
          (case dateParse (case v of Str s \<Rightarrow> s | _ \<Rightarrow> ''[object Object]'') of
             None \<Rightarrow> Inl RangeError
           | Some t \<Rightarrow> Inr t))"

section \<open>The normalized article\<close>

record article =
  id_a :: string
  title :: string
  description :: string
  link :: string
  pubDate :: int
  source :: string
  sourceName :: string
  sourceFullName :: string
  sourceColor :: string
  category :: string
  topics :: "string list"
  imageUrl :: string

definition makeId :: "string \<Rightarrow> string" where
  "makeId s = take 24 (filter isAlnum (base64 (utf8 (take 80 s))))"

text \<open>
  The callback of \<open>items.slice(0, 20).map\<close>: \<open>Inl\<close> is an exception thrown inside it,
  \<open>Inr None\<close> is \<open>null\<close>. The image URL is an attribute, hence a string.
\<close>

definition normalizeItem ::
  "(string \<Rightarrow> int option) \<Rightarrow> int \<Rightarrow> source \<Rightarrow> entry \<Rightarrow> js_error + article option" where
  "normalizeItem dateParse now src item =
     (case orString [text_of (getProp item ''title''), getProp item ''title''] of
        Inl e \<Rightarrow> Inl e
      | Inr t0 \<Rightarrow>
     (case orString [text_of (getProp item ''description''), getProp item ''description'',
                     text_of (getProp item ''summary''), getProp item ''summary'',
                     getProp item ''content:encoded''] of
        Inl e \<Rightarrow> Inl e
      | Inr rawDesc \<Rightarrow>
     (case orString [text_of (getProp item ''category''), getProp item ''category''] of
        Inl e \<Rightarrow> Inl e
      | Inr c0 \<Rightarrow>
     (let title = trim (stripTags t0);
          description = take 500 (trim (collapseSpaces (stripTags rawDesc)));
          link = orString [attr_of (getProp item ''link'') ''href'', text_of (getProp item ''link''),
                           getProp item ''link''];
          category = trim (stripTags c0);
          imageUrl = (case orString [attr_of (getProp item ''media:content'') ''url'',
                                     attr_of (getProp item ''media:thumbnail'') ''url'',
                                     attr_of (getProp item ''enclosure'') ''url''] of
                        Inl e \<Rightarrow> [] | Inr u \<Rightarrow> u)
      in if title = [] \<or> \<not> isRelevant title description then Inr None
         else
           (case link of
              Inl e \<Rightarrow> Inl e
            | Inr l \<Rightarrow>
           (case toISOString dateParse now (pubDateRaw item) of
              Inl e \<Rightarrow> Inl e
            | Inr t \<Rightarrow>
                Inr (Some \<lparr>id_a = makeId (if l \<noteq> [] then l else title),
                           title = title,
                           description = description,
                           link = l,
                           pubDate = t,
                           source = id' src,
                           sourceName = name src,
                           sourceFullName = fullName src,
                           sourceColor = color src,
                           category = (if category \<noteq> [] then category else ''General''),
                           topics = detectTopics title description,
                           imageUrl = imageUrl\<rparr>)))))))"

text \<open>\<open>Array.prototype.map\<close> with a callback that may throw: the first exception ends it.\<close>

fun mapItems :: "('a \<Rightarrow> js_error + 'b) \<Rightarrow> 'a list \<Rightarrow> js_error + 'b list" where
  "mapItems f [] = Inr []"
| "mapItems f (x # xs) =
     (case f x of
        Inl e \<Rightarrow> Inl e
      | Inr y \<Rightarrow> (case mapItems f xs of Inl e \<Rightarrow> Inl e | Inr ys \<Rightarrow> Inr (y # ys)))"

definition items_of :: "feed_doc \<Rightarrow> entry list" where
  "items_of doc = (case doc of RssChannel es \<Rightarrow> es | AtomFeed es \<Rightarrow> es | OtherDoc \<Rightarrow> [])"

text \<open>
  \<open>parseFeed\<close>: everything is inside one \<open>try\<close>, whose \<open>catch\<close> returns \<open>[]\<close>. The result
  is what the promise is fulfilled with, and \<open>None\<close> when the promise never settles.
\<close>

definition parseFeed ::
  "(string \<Rightarrow> int option) \<Rightarrow> string \<Rightarrow> source \<Rightarrow> endpoint_run \<Rightarrow> article list option" where
  "parseFeed dateParse url src run =
     (case fetched run of
        FetchRejected \<Rightarrow> Some []
      | StatusNotOk \<Rightarrow> Some []
      | TextRejected \<Rightarrow> Some []
      | BodyStalls \<Rightarrow> None
      | XmlRejected \<Rightarrow> Some []
      | Parsed doc \<Rightarrow>
          (case mapItems (\<lambda>(i, item). normalizeItem dateParse (clock run i) src item)
                         (enumerate 0 (take 20 (items_of doc))) of
             Inl e \<Rightarrow> Some []
           | Inr rs \<Rightarrow> Some (List.map_filter (\<lambda>r. r) rs)))"

section \<open>The handler\<close>

definition dedupKey :: "string \<Rightarrow> string" where
  "dedupKey t = take 60 (filter isLowerAlnum (toLowerCase t))"

text \<open>The \<open>filter\<close> callback of the deduplication, with the set \<open>seen\<close> threaded through.\<close>

fun dedupFilter :: "string set \<Rightarrow> article list \<Rightarrow> article list" where
  "dedupFilter seen [] = []"
| "dedupFilter seen (a # as) =
     (if title a = [] then dedupFilter seen as
      else if dedupKey (title a) \<in> seen then dedupFilter seen as
      else a # dedupFilter (insert (dedupKey (title a)) seen) as)"

text \<open>
  \<open>deduped.sort((a, b) => new Date(b.pubDate) - new Date(a.pubDate))\<close>. The comparator
  is consistent, so the stable sort of the engine yields what a stable insertion sort
  yields.
\<close>

definition byRecency :: "article \<Rightarrow> article \<Rightarrow> int" where
  "byRecency a b = pubDate b - pubDate a"

fun insertBy :: "('a \<Rightarrow> 'a \<Rightarrow> int) \<Rightarrow> 'a \<Rightarrow> 'a list \<Rightarrow> 'a list" where
  "insertBy cmp x [] = [x]"
| "insertBy cmp x (y # ys) = (if cmp x y \<le> 0 then x # y # ys else y # insertBy cmp x ys)"

definition sortBy :: "('a \<Rightarrow> 'a \<Rightarrow> int) \<Rightarrow> 'a list \<Rightarrow> 'a list" where
  "sortBy cmp xs = foldr (insertBy cmp) xs []"

text \<open>Objects used as dictionaries are association lists in the order the keys were added.\<close>

definition groupBySource :: "article list \<Rightarrow> (string \<times> article list) list" where
  "groupBySource deduped =
     fold (\<lambda>a g. case map_of g (source a) of
                    None \<Rightarrow> g
                  | Some l \<Rightarrow> AList.update (source a) (l @ [a]) g)
          deduped
          (fold (\<lambda>s g. AList.update (id' s) [] g) RSS_SOURCES [])"

definition pushTopic :: "article \<Rightarrow> string \<Rightarrow> (string \<times> article list) list \<Rightarrow> (string \<times> article list) list" where
  "pushTopic a t g =
     AList.update t ((case map_of g t of None \<Rightarrow> [] | Some l \<Rightarrow> l) @ [a]) g"

definition groupByTopic :: "article list \<Rightarrow> (string \<times> article list) list" where
  "groupByTopic deduped = fold (\<lambda>a g. fold (pushTopic a) (topics a) g) deduped []"

record payload =
  articles :: "article list"
  grouped :: "(string \<times> article list) list"
  topicGrouped :: "(string \<times> article list) list"
  sources :: "(string \<times> string \<times> string \<times> string) list"
  topics' :: "string list"
  lastUpdated :: int
  total :: nat

datatype body = NoBody | Json payload | JsonError string

record response =
  statusCode :: nat
  headers :: "(string \<times> string) list"
  body :: body

definition corsHeaders :: "(string \<times> string) list" where
  "corsHeaders =
     [(''Content-Type'', ''application/json''),
      (''Access-Control-Allow-Origin'', ''*''),
      (''Access-Control-Allow-Methods'', ''GET, OPTIONS''),
      (''Cache-Control'', ''public, max-age=300'')]"

text \<open>
  \<open>net\<close> says how the call for each URL goes. \<open>Promise.allSettled\<close> settles once every
  promise of \<open>allPromises\<close> has settled, and never when one of them never settles; it
  returns the outcomes in the order of \<open>allPromises\<close>, whenever each one settled. Every
  call that settles is fulfilled, since \<open>parseFeed\<close> catches what is thrown inside it.
\<close>

definition allPromises ::
  "(string \<Rightarrow> int option) \<Rightarrow> (string \<Rightarrow> endpoint_run) \<Rightarrow> article list option list" where
  "allPromises dateParse net =
     concat (map (\<lambda>src. map (\<lambda>url. parseFeed dateParse url src (net url)) (feeds src))
                 RSS_SOURCES)"

definition allArticles ::
  "(string \<Rightarrow> int option) \<Rightarrow> (string \<Rightarrow> endpoint_run) \<Rightarrow> article list option" where
  "allArticles dateParse net = map_option concat (those (allPromises dateParse net))"

definition deduped ::
  "(string \<Rightarrow> int option) \<Rightarrow> (string \<Rightarrow> endpoint_run) \<Rightarrow> article list option" where
  "deduped dateParse net =
     map_option (\<lambda>all. sortBy byRecency (dedupFilter {} all)) (allArticles dateParse net)"

definition buildPayload :: "article list \<Rightarrow> int \<Rightarrow> payload" where
  "buildPayload ds now =
     \<lparr>articles = take 250 ds,
      grouped = groupBySource ds,
      topicGrouped = groupByTopic ds,
      sources = map (\<lambda>s. (id' s, name s, fullName s, color s)) RSS_SOURCES,
      topics' = map fst UPSC_TOPICS,
      lastUpdated = now,
      total = length ds\<rparr>"

text \<open>
  The handler returns a response, or never returns (\<open>None\<close>) when it waits for a call
  that never settles. Nothing between \<open>try\<close> and \<open>catch\<close> of the handler throws on the
  inputs of the model, so the branch with status 500 is not taken.
\<close>

definition handler ::
  "(string \<Rightarrow> int option) \<Rightarrow> (string \<Rightarrow> endpoint_run) \<Rightarrow> int \<Rightarrow> string \<Rightarrow> response option" where
  "handler dateParse net now httpMethod =
     (if httpMethod = ''OPTIONS''
      then Some \<lparr>statusCode = 204, headers = corsHeaders, body = NoBody\<rparr>
      else (case deduped dateParse net of
              None \<Rightarrow> None
            | Some ds \<Rightarrow>
                Some \<lparr>statusCode = 200, headers = corsHeaders,
                      body = Json (buildPayload ds now)\<rparr>))"

text \<open>Every article that stands in some list of a group map.\<close>

definition groupMembers :: "(string \<times> article list) list \<Rightarrow> article set" where
  "groupMembers g = \<Union> (set ` snd ` set g)"

text \<open>The article \<open>a\<close> stands in the list that the group map \<open>g\<close> has under the key \<open>t\<close>.\<close>

definition listed :: "(string \<times> article list) list \<Rightarrow> string \<Rightarrow> article \<Rightarrow> bool" where
  "listed g t a = (\<exists>l. map_of g t = Some l \<and> a \<in> set l)"

text \<open>Every article that stands anywhere in the payload of a response.\<close>

definition responseArticles :: "payload \<Rightarrow> article set" where
  "responseArticles p =
     set (articles p) \<union> groupMembers (grouped p) \<union> groupMembers (topicGrouped p)"

text \<open>The pairs of a source and one of its endpoints, in the order of \<open>allPromises\<close>.\<close>

definition endpoints :: "(source \<times> string) list" where
  "endpoints = concat (map (\<lambda>src. map (Pair src) (feeds src)) RSS_SOURCES)"

subsection \<open>Relevance and matching as the specification words them\<close>

text \<open>
  A topic matches a text when one of its keywords is a substring of the text. A title and
  a description are relevant when their case-folded concatenation contains a keyword of
  some topic, or one of the two anchor terms.
\<close>

definition topicMatches :: "string \<Rightarrow> string \<Rightarrow> bool" where
  "topicMatches txt topic =
     (\<exists>keywords. (topic, keywords) \<in> set UPSC_TOPICS \<and> (\<exists>k \<in> set keywords. sublist k txt))"

definition relevantText :: "string \<Rightarrow> string \<Rightarrow> bool" where
  "relevantText t d =
     ((\<exists>topic \<in> set (map fst UPSC_TOPICS). topicMatches (toLowerCase (t @ '' '' @ d)) topic)
      \<or> sublist ''india'' (toLowerCase (t @ '' '' @ d))
      \<or> sublist ''government'' (toLowerCase (t @ '' '' @ d)))"

section \<open>A sample run\<close>

text \<open>
  A date parser that knows two date strings and takes every other string for an invalid
  date, and a network on which two endpoints answer and the twelve others time out
  before their headers arrive. The
  first endpoint of The Hindu settles late with an RSS channel of three items; the first
  endpoint of the Indian Express settles early with an Atom feed of two entries, the
  first of which repeats a headline of The Hindu in other letter case.
\<close>

definition sampleDates :: "string \<Rightarrow> int option" where
  "sampleDates s =
     (if s = ''Wed, 01 May 2024 10:00:00 GMT'' then Some 1714557600000
      else if s = ''2024-05-02T08:30:00Z'' then Some 1714638600000
      else None)"

definition hinduRun :: endpoint_run where
  "hinduRun =
     \<lparr>settledAt = 900, clock = (\<lambda>i. 1714600000000 + int i),
      fetched = Parsed (RssChannel
        [[(''title'', Str ''GST bill''),
          (''description'', Str ''<b>tax</b>''),
          (''link'', Str ''https://www.thehindu.com/a1''),
          (''pubDate'', Str ''Wed, 01 May 2024 10:00:00 GMT'')],
         [(''title'', Str ''India wins'')],
         [(''title'', Str ''Weather''),
          (''pubDate'', Str ''Wed, 01 May 2024 10:00:00 GMT'')]])\<rparr>"

definition expressRun :: endpoint_run where
  "expressRun =
     \<lparr>settledAt = 100, clock = (\<lambda>i. 1714600000500 + int i),
      fetched = Parsed (AtomFeed
        [[(''title'', Node [(''type'', ''html'')] (Some ''GST Bill!'')),
          (''link'', Node [(''href'', ''https://indianexpress.com/b1'')] None),
          (''updated'', Str ''2024-05-02T08:30:00Z'')],
         [(''title'', Str ''RBI rate''),
          (''summary'', Str ''No  change''),
          (''link'', Node [(''href'', ''https://indianexpress.com/b2'')] None),
          (''updated'', Str ''2024-05-02T08:30:00Z'')]])\<rparr>"

definition timedOut :: endpoint_run where
  "timedOut = \<lparr>settledAt = 9000, clock = (\<lambda>i. 1714600009000), fetched = FetchRejected\<rparr>"

definition sampleNet :: "string \<Rightarrow> endpoint_run" where
  "sampleNet url =
     (if url = ''https://www.thehindu.com/news/national/feeder/default.rss'' then hinduRun
      else if url = ''https://indianexpress.com/section/india/feed/'' then expressRun
      else timedOut)"

definition hinduGst :: article where
  "hinduGst =
     \<lparr>id_a = ''aHR0cHM6Ly93d3cudGhlaGlu'', title = ''GST bill'',
      description = ''tax'', link = ''https://www.thehindu.com/a1'',
      pubDate = 1714557600000, source = ''hindu'', sourceName = ''The Hindu'',
      sourceFullName = ''The Hindu'', sourceColor = ''#DC2626'', category = ''General'',
      topics = [''Polity & Governance'', ''Economy''], imageUrl = []\<rparr>"

definition hinduWins :: article where
  "hinduWins =
     \<lparr>id_a = ''SW5kaWEgd2lucw'', title = ''India wins'', description = [], link = [],
      pubDate = 1714600000001, source = ''hindu'', sourceName = ''The Hindu'',
      sourceFullName = ''The Hindu'', sourceColor = ''#DC2626'', category = ''General'',
      topics = [''General''], imageUrl = []\<rparr>"

definition expressGst :: article where
  "expressGst =
     \<lparr>id_a = ''aHR0cHM6Ly9pbmRpYW5leHBy'', title = ''GST Bill!'',
      description = [], link = ''https://indianexpress.com/b1'', pubDate = 1714638600000,
      source = ''indianexpress'', sourceName = ''Indian Express'',
      sourceFullName = ''The Indian Express'', sourceColor = ''#2563EB'',
      category = ''General'', topics = [''Polity & Governance'', ''Economy''],
      imageUrl = []\<rparr>"

definition expressRbi :: article where
  "expressRbi =
     \<lparr>id_a = ''aHR0cHM6Ly9pbmRpYW5leHBy'', title = ''RBI rate'',
      description = ''No change'', link = ''https://indianexpress.com/b2'',
      pubDate = 1714638600000, source = ''indianexpress'', sourceName = ''Indian Express'',
      sourceFullName = ''The Indian Express'', sourceColor = ''#2563EB'',
      category = ''General'', topics = [''Economy''], imageUrl = []\<rparr>"

text \<open>
  An endpoint whose second item carries a publish date that the date parser takes for an
  invalid date.
\<close>

definition badDateRun :: endpoint_run where
  "badDateRun =
     \<lparr>settledAt = 300, clock = (\<lambda>i. 1714600000000 + int i),
      fetched = Parsed (RssChannel
        [[(''title'', Str ''GST bill''),
          (''pubDate'', Str ''Wed, 01 May 2024 10:00:00 GMT'')],
         [(''title'', Str ''India wins''),
          (''pubDate'', Str ''yesterday evening'')]])\<rparr>"

text \<open>
  The sample run, except that the second endpoint of The Hindu sends its headers in time
  and then no body.
\<close>

definition stalledRun :: endpoint_run where
  "stalledRun = \<lparr>settledAt = 0, clock = (\<lambda>i. 0), fetched = BodyStalls\<rparr>"

definition stalledNet :: "string \<Rightarrow> endpoint_run" where
  "stalledNet url =
     (if url = ''https://www.thehindu.com/opinion/feeder/default.rss'' then stalledRun
      else sampleNet url)"

section \<open>A crowded run\<close>









section \<open>Properties of the parts\<close>

lemma includes_str_sublist: "includes_str s k \<longleftrightarrow> sublist k s"
  by (induction s) (simp_all add: sublist_Cons_right)

lemma normalizeItem_kept:
  assumes "normalizeItem dateParse now src item = Inr (Some a)"
  shows "title a \<noteq> [] \<and> isRelevant (title a) (description a)
         \<and> topics a = detectTopics (title a) (description a) \<and> source a = id' src"
proof -
  obtain t0 where t0: "orString [text_of (getProp item ''title''), getProp item ''title''] = Inr t0"
    using assms by (cases "orString [text_of (getProp item ''title''), getProp item ''title'']")
      (simp_all add: normalizeItem_def)
  obtain rawDesc where d: "orString [text_of (getProp item ''description''), getProp item ''description'',
                     text_of (getProp item ''summary''), getProp item ''summary'',
                     getProp item ''content:encoded''] = Inr rawDesc"
    using assms t0 by (cases "orString [text_of (getProp item ''description''), getProp item ''description'',
                     text_of (getProp item ''summary''), getProp item ''summary'',
                     getProp item ''content:encoded'']")
      (simp_all add: normalizeItem_def)
  obtain c0 where c: "orString [text_of (getProp item ''category''), getProp item ''category''] = Inr c0"
    using assms t0 d by (cases "orString [text_of (getProp item ''category''), getProp item ''category'']")
      (simp_all add: normalizeItem_def)
  let ?title = "trim (stripTags t0)"
  let ?desc = "take 500 (trim (collapseSpaces (stripTags rawDesc)))"
  have rel: "?title \<noteq> [] \<and> isRelevant ?title ?desc"
    using assms t0 d c by (simp add: normalizeItem_def Let_def split: if_split_asm)
  obtain l where l: "orString [attr_of (getProp item ''link'') ''href'', text_of (getProp item ''link''),
                           getProp item ''link''] = Inr l"
    using assms t0 d c rel
    by (cases "orString [attr_of (getProp item ''link'') ''href'', text_of (getProp item ''link''),
                           getProp item ''link'']")
      (simp_all add: normalizeItem_def Let_def)
  obtain t where t: "toISOString dateParse now (pubDateRaw item) = Inr t"
    using assms t0 d c rel l
    by (cases "toISOString dateParse now (pubDateRaw item)") (simp_all add: normalizeItem_def Let_def)
  have "title a = ?title \<and> description a = ?desc \<and> topics a = detectTopics ?title ?desc
        \<and> source a = id' src"
    using assms t0 d c rel l t by (auto simp add: normalizeItem_def Let_def)
  with rel show ?thesis by simp
qed

lemma mapItems_Inr:
  "mapItems f xs = Inr rs \<Longrightarrow> r \<in> set rs \<Longrightarrow> \<exists>x \<in> set xs. f x = Inr r"
proof (induction xs arbitrary: rs)
  case Nil
  then show ?case by simp
next
  case (Cons x xs)
  from Cons.prems(1) obtain y ys where y: "f x = Inr y" and ys: "mapItems f xs = Inr ys"
    and rs: "rs = y # ys"
    by (cases "f x"; cases "mapItems f xs") auto
  show ?case
  proof (cases "r = y")
    case True
    with y show ?thesis by simp
  next
    case False
    with rs Cons.prems(2) have "r \<in> set ys" by simp
    from Cons.IH [OF ys this] show ?thesis by auto
  qed
qed

lemma mapItems_Inl:
  "x \<in> set xs \<Longrightarrow> f x = Inl e \<Longrightarrow> \<exists>e'. mapItems f xs = Inl e'"
proof (induction xs)
  case Nil
  then show ?case by simp
next
  case (Cons y ys)
  show ?case
  proof (cases "f y")
    case (Inl e')
    then show ?thesis by simp
  next
    case (Inr r)
    with Cons.prems have "x \<in> set ys" by auto
    from Cons.IH [OF this Cons.prems(2)] Inr show ?thesis by auto
  qed
qed

lemma mapItems_all_Inr:
  "\<forall>x \<in> set xs. f x = Inr (g x) \<Longrightarrow> mapItems f xs = Inr (map g xs)"
  by (induction xs) simp_all

lemma set_map_filter_id: "set (List.map_filter (\<lambda>r. r) rs) = {a. Some a \<in> set rs}"
proof (induction rs)
  case Nil
  show ?case by simp
next
  case (Cons r rs)
  then show ?case by (cases r) auto
qed

lemma parseFeed_kept:
  assumes "parseFeed dateParse url src run = Some as" and "a \<in> set as"
  shows "\<exists>doc i. fetched run = Parsed doc \<and> i < length (take 20 (items_of doc))
           \<and> normalizeItem dateParse (clock run i) src (take 20 (items_of doc) ! i)
               = Inr (Some a)"
proof (cases "fetched run")
  case (Parsed doc)
  let ?f = "\<lambda>(i, item). normalizeItem dateParse (clock run i) src item"
  let ?xs = "enumerate 0 (take 20 (items_of doc))"
  show ?thesis
  proof (cases "mapItems ?f ?xs")
    case (Inl e)
    with Parsed assms show ?thesis by (simp add: parseFeed_def)
  next
    case (Inr rs)
    with Parsed assms have "Some a \<in> set rs"
      by (auto simp: parseFeed_def set_map_filter_id)
    from mapItems_Inr [OF Inr this] obtain x where x: "x \<in> set ?xs" "?f x = Inr (Some a)"
      by auto
    obtain i item where xi: "x = (i, item)" by (cases x)
    with x(1) have "i < length (take 20 (items_of doc))" "take 20 (items_of doc) ! i = item"
      by (simp_all add: in_set_enumerate_eq)
    with x(2) xi Parsed show ?thesis by auto
  qed
qed (use assms in \<open>simp_all add: parseFeed_def\<close>)

subsection \<open>Waiting for every call\<close>

lemma those_Some: "those xs = Some ys \<Longrightarrow> xs = map Some ys"
proof (induction xs arbitrary: ys)
  case Nil
  then show ?case by simp
next
  case (Cons x xs)
  then show ?case by (cases x; cases "those xs") auto
qed


lemma those_None: "None \<in> set xs \<Longrightarrow> those xs = None"
proof (induction xs)
  case Nil
  then show ?case by simp
next
  case (Cons x xs)
  then show ?case by (cases x) auto
qed

lemma allPromises_endpoints:
  "allPromises dateParse net
   = map (\<lambda>(src, url). parseFeed dateParse url src (net url)) endpoints"
  by (simp add: allPromises_def endpoints_def map_concat comp_def)

lemma endpoints_sources:
  "(src, url) \<in> set endpoints \<longleftrightarrow> src \<in> set RSS_SOURCES \<and> url \<in> set (feeds src)"
  by (auto simp: endpoints_def)

lemma allArticles_Some:
  assumes "allArticles dateParse net = Some all"
  shows "\<exists>ass. map (\<lambda>(src, url). parseFeed dateParse url src (net url)) endpoints = map Some ass
           \<and> all = concat ass"
proof -
  from assms obtain ass where t: "those (allPromises dateParse net) = Some ass"
    and c: "all = concat ass"
    by (auto simp: allArticles_def)
  from those_Some [OF t] c show ?thesis by (auto simp: allPromises_endpoints)
qed

lemma allArticles_origin:
  assumes "allArticles dateParse net = Some all" and "a \<in> set all"
  shows "\<exists>src url as. (src, url) \<in> set endpoints
           \<and> parseFeed dateParse url src (net url) = Some as \<and> a \<in> set as"
proof -
  from allArticles_Some [OF assms(1)] obtain ass where
    m: "map (\<lambda>(src, url). parseFeed dateParse url src (net url)) endpoints = map Some ass"
    and c: "all = concat ass" by auto
  from assms(2) c obtain as where as: "as \<in> set ass" "a \<in> set as" by auto
  then have "Some as \<in> set (map Some ass)" by simp
  then have "Some as \<in> set (map (\<lambda>(src, url). parseFeed dateParse url src (net url)) endpoints)"
    by (simp only: m)
  then obtain e where e: "e \<in> set endpoints"
    "(case e of (src, url) \<Rightarrow> parseFeed dateParse url src (net url)) = Some as"
    by auto
  obtain src url where "e = (src, url)" by (cases e)
  with e as(2) show ?thesis by auto
qed

lemma allArticles_kept:
  assumes "allArticles dateParse net = Some all" and "a \<in> set all"
  shows "title a \<noteq> [] \<and> isRelevant (title a) (description a)
         \<and> topics a = detectTopics (title a) (description a)
         \<and> source a \<in> id' ` set RSS_SOURCES"
proof -
  from allArticles_origin [OF assms] obtain src url as where s: "(src, url) \<in> set endpoints"
    and p: "parseFeed dateParse url src (net url) = Some as" and a: "a \<in> set as" by auto
  from parseFeed_kept [OF p a] obtain i doc where
    "normalizeItem dateParse (clock (net url) i) src (take 20 (items_of doc) ! i) = Inr (Some a)"
    by auto
  from normalizeItem_kept [OF this] s show ?thesis by (auto simp: endpoints_sources)
qed

subsection \<open>dedup\<close>

lemma set_dedupFilter: "set (dedupFilter seen xs) \<subseteq> set xs"
  by (induction xs arbitrary: seen) auto

lemma dedupFilter_keys_fresh:
  "a \<in> set (dedupFilter seen xs) \<Longrightarrow> dedupKey (title a) \<notin> seen"
  by (induction xs arbitrary: seen) (auto split: if_splits)

lemma distinct_dedupFilter:
  "distinct (map (\<lambda>a. dedupKey (title a)) (dedupFilter seen xs))"
proof (induction xs arbitrary: seen)
  case Nil
  show ?case by simp
next
  case (Cons x xs)
  have "dedupKey (title a) \<noteq> dedupKey (title x)"
    if "a \<in> set (dedupFilter (insert (dedupKey (title x)) seen) xs)" for a
    using dedupFilter_keys_fresh [OF that] by simp
  then have "dedupKey (title x)
      \<notin> (\<lambda>a. dedupKey (title a)) ` set (dedupFilter (insert (dedupKey (title x)) seen) xs)"
    by force
  with Cons.IH show ?case by simp
qed

lemma dedupFilter_first:
  assumes "a \<in> set (dedupFilter seen xs)" and "\<forall>b \<in> set xs. title b \<noteq> []"
  shows "find (\<lambda>b. dedupKey (title b) = dedupKey (title a)) xs = Some a"
  using assms
proof (induction xs arbitrary: seen)
  case Nil
  then show ?case by simp
next
  case (Cons x xs)
  from Cons.prems(2) have tx: "title x \<noteq> []" by simp
  show ?case
  proof (cases "dedupKey (title x) = dedupKey (title a)")
    case True
    have "a = x"
    proof (cases "dedupKey (title x) \<in> seen")
      case True
      with Cons.prems(1) tx have "a \<in> set (dedupFilter seen xs)" by simp
      from dedupFilter_keys_fresh [OF this] True \<open>dedupKey (title x) = dedupKey (title a)\<close>
      show ?thesis by simp
    next
      case False
      show ?thesis
      proof (rule ccontr)
        assume "a \<noteq> x"
        with Cons.prems(1) tx False
        have "a \<in> set (dedupFilter (insert (dedupKey (title x)) seen) xs)" by simp
        from dedupFilter_keys_fresh [OF this] \<open>dedupKey (title x) = dedupKey (title a)\<close>
        show False by simp
      qed
    qed
    with True show ?thesis by simp
  next
    case False
    with Cons.prems(1) have "a \<in> set (dedupFilter seen xs)
        \<or> a \<in> set (dedupFilter (insert (dedupKey (title x)) seen) xs)"
      by (auto split: if_splits)
    with Cons.IH Cons.prems(2) False show ?thesis by auto
  qed
qed

lemma dedupFilter_covers:
  assumes "b \<in> set xs" and "title b \<noteq> []" and "dedupKey (title b) \<notin> seen"
  shows "\<exists>a \<in> set (dedupFilter seen xs). dedupKey (title a) = dedupKey (title b)"
  using assms
proof (induction xs arbitrary: seen)
  case Nil
  then show ?case by simp
next
  case (Cons x xs)
  show ?case
  proof (cases "b = x")
    case True
    with Cons.prems show ?thesis by auto
  next
    case False
    with Cons.prems have b: "b \<in> set xs" by simp
    show ?thesis
    proof (cases "dedupKey (title x) = dedupKey (title b) \<and> title x \<noteq> [] ")
      case True
      with Cons.prems show ?thesis by auto
    next
      case False
      then have "dedupKey (title b) \<notin> insert (dedupKey (title x)) seen \<or> title x = []"
        using Cons.prems(3) by auto
      with Cons.IH [OF b Cons.prems(2)] Cons.prems(3) show ?thesis
        by (cases "title x = []") auto
    qed
  qed
qed



subsection \<open>sort\<close>

lemma set_insertBy: "set (insertBy cmp x ys) = insert x (set ys)"
  by (induction ys) auto

lemma set_sortBy: "set (sortBy cmp xs) = set xs"
  by (induction xs) (simp_all add: sortBy_def set_insertBy)

lemma length_insertBy: "length (insertBy cmp x ys) = Suc (length ys)"
  by (induction ys) auto

lemma length_sortBy: "length (sortBy cmp xs) = length xs"
  by (induction xs) (simp_all add: sortBy_def length_insertBy)

lemma distinct_map_insertBy:
  "distinct (map f (insertBy cmp x ys)) \<longleftrightarrow> f x \<notin> f ` set ys \<and> distinct (map f ys)"
  by (induction ys) (auto simp: set_insertBy)

lemma distinct_map_sortBy: "distinct (map f (sortBy cmp xs)) \<longleftrightarrow> distinct (map f xs)"
  by (induction xs) (simp_all add: sortBy_def distinct_map_insertBy set_sortBy [unfolded sortBy_def])

lemma sorted_insertBy:
  "sorted_wrt (\<lambda>a b. pubDate b \<le> pubDate a) ys
   \<Longrightarrow> sorted_wrt (\<lambda>a b. pubDate b \<le> pubDate a) (insertBy byRecency x ys)"
  by (induction ys) (auto simp: set_insertBy byRecency_def)

lemma sorted_sortBy: "sorted_wrt (\<lambda>a b. pubDate b \<le> pubDate a) (sortBy byRecency xs)"
  by (induction xs) (simp_all add: sortBy_def sorted_insertBy)



subsection \<open>Grouping\<close>

lemma groupMembers_update: "groupMembers (AList.update k v g) \<subseteq> groupMembers g \<union> set v"
  by (induction g) (auto simp: groupMembers_def)

lemma groupMembers_map_of: "map_of g k = Some l \<Longrightarrow> set l \<subseteq> groupMembers g"
  by (auto simp: groupMembers_def dest!: map_of_SomeD intro!: bexI [of _ "(k, l)"])

lemma map_of_init_groups:
  "map_of (fold (\<lambda>s g. AList.update (id' s) [] g) ss g0) k
   = (if k \<in> id' ` set ss then Some [] else map_of g0 k)"
  by (induction ss arbitrary: g0) (auto simp: update_conv')

lemma map_of_fold_source:
  "map_of (fold (\<lambda>a g. case map_of g (source a) of
                           None \<Rightarrow> g
                         | Some l \<Rightarrow> AList.update (source a) (l @ [a]) g) ds g) k
   = (case map_of g k of
        None \<Rightarrow> None
      | Some l \<Rightarrow> Some (l @ filter (\<lambda>a. source a = k) ds))"
proof (induction ds arbitrary: g)
  case Nil
  show ?case by (simp split: option.splits)
next
  case (Cons a ds)
  show ?case
    by (cases "map_of g (source a)") (auto simp: Cons.IH update_conv' split: option.splits)
qed

lemma map_of_groupBySource:
  "map_of (groupBySource ds) k
   = (if k \<in> id' ` set RSS_SOURCES then Some (filter (\<lambda>a. source a = k) ds) else None)"
  by (simp add: groupBySource_def map_of_fold_source map_of_init_groups)

lemma groupMembers_Some:
  "groupMembers g = {a. \<exists>k l. (k, l) \<in> set g \<and> a \<in> set l}"
  by (auto simp: groupMembers_def) force

lemma distinct_init_groups:
  "distinct (map fst g0)
   \<Longrightarrow> distinct (map fst (fold (\<lambda>s g. AList.update (id' s) [] g) ss g0))"
  by (induction ss arbitrary: g0) (simp_all add: distinct_update)

lemma distinct_fold_source:
  "distinct (map fst g)
   \<Longrightarrow> distinct (map fst (fold (\<lambda>a g. case map_of g (source a) of
                           None \<Rightarrow> g
                         | Some l \<Rightarrow> AList.update (source a) (l @ [a]) g) ds g))"
proof (induction ds arbitrary: g)
  case Nil
  then show ?case by simp
next
  case (Cons a ds)
  then show ?case by (cases "map_of g (source a)") (simp_all add: distinct_update)
qed

lemma distinct_groupBySource: "distinct (map fst (groupBySource ds))"
  by (simp add: groupBySource_def distinct_fold_source distinct_init_groups)

lemma groupMembers_groupBySource:
  "groupMembers (groupBySource ds) = {a \<in> set ds. source a \<in> id' ` set RSS_SOURCES}"
proof -
  have "(k, l) \<in> set (groupBySource ds) \<longleftrightarrow> map_of (groupBySource ds) k = Some l" for k l
    using distinct_groupBySource [of ds] by simp
  then show ?thesis
    by (auto simp: groupMembers_Some map_of_groupBySource)
qed

lemma map_of_pushTopic:
  "map_of (pushTopic a t g) k
   = (if k = t then Some ((case map_of g t of None \<Rightarrow> [] | Some l \<Rightarrow> l) @ [a]) else map_of g k)"
  by (simp add: pushTopic_def update_conv')

lemma distinct_pushTopic: "distinct (map fst g) \<Longrightarrow> distinct (map fst (pushTopic a t g))"
  by (simp add: pushTopic_def distinct_update)

lemma keys_pushTopic: "fst ` set (pushTopic a t g) = insert t (fst ` set g)"
  by (simp add: pushTopic_def dom_update)

lemma listed_pushTopic:
  "listed (pushTopic a t g) k b \<longleftrightarrow> listed g k b \<or> (k = t \<and> b = a)"
  by (cases "map_of g t") (auto simp: listed_def map_of_pushTopic)

lemma listed_fold_pushTopic:
  "listed (fold (pushTopic a) ts g) k b \<longleftrightarrow> listed g k b \<or> (k \<in> set ts \<and> b = a)"
  by (induction ts arbitrary: g) (auto simp: listed_pushTopic)

lemma listed_fold_articles:
  "listed (fold (\<lambda>a g. fold (pushTopic a) (topics a) g) ds g) k b
   \<longleftrightarrow> listed g k b \<or> (b \<in> set ds \<and> k \<in> set (topics b))"
  by (induction ds arbitrary: g) (auto simp: listed_fold_pushTopic)

lemma listed_groupByTopic:
  "listed (groupByTopic ds) k b \<longleftrightarrow> b \<in> set ds \<and> k \<in> set (topics b)"
  by (simp add: groupByTopic_def listed_fold_articles) (simp add: listed_def)

lemma distinct_fold_pushTopic:
  "distinct (map fst g) \<Longrightarrow> distinct (map fst (fold (pushTopic a) ts g))"
  by (induction ts arbitrary: g) (simp_all add: distinct_pushTopic)

lemma distinct_groupByTopic_aux:
  "distinct (map fst g)
   \<Longrightarrow> distinct (map fst (fold (\<lambda>a g. fold (pushTopic a) (topics a) g) ds g))"
  by (induction ds arbitrary: g) (simp_all add: distinct_fold_pushTopic)

lemma distinct_groupByTopic: "distinct (map fst (groupByTopic ds))"
  by (simp add: groupByTopic_def distinct_groupByTopic_aux)

lemma groupMembers_listed:
  "distinct (map fst g) \<Longrightarrow> groupMembers g = {a. \<exists>k. listed g k a}"
  by (auto simp: groupMembers_Some listed_def)

lemma groupMembers_groupByTopic:
  "groupMembers (groupByTopic ds) = {a \<in> set ds. topics a \<noteq> []}"
proof -
  have "(\<exists>k. k \<in> set (topics a)) \<longleftrightarrow> topics a \<noteq> []" for a :: article
    by (cases "topics a") auto
  then show ?thesis
    by (simp add: groupMembers_listed [OF distinct_groupByTopic] listed_groupByTopic)
qed

lemma keys_fold_pushTopic:
  "fst ` set (fold (pushTopic a) ts g) = set ts \<union> fst ` set g"
  by (induction ts arbitrary: g) (auto simp: keys_pushTopic)

lemma keys_groupByTopic_aux:
  "fst ` set (fold (\<lambda>a g. fold (pushTopic a) (topics a) g) ds g)
   = (\<Union>a \<in> set ds. set (topics a)) \<union> fst ` set g"
  by (induction ds arbitrary: g) (auto simp: keys_fold_pushTopic)

lemma keys_groupByTopic: "fst ` set (groupByTopic ds) = (\<Union>a \<in> set ds. set (topics a))"
  by (simp add: groupByTopic_def keys_groupByTopic_aux)


subsection \<open>The sample run, evaluated\<close>

lemma parseFeed_rejected:
  "fetched run = FetchRejected \<Longrightarrow> parseFeed dateParse url src run = Some []"
  by (simp add: parseFeed_def)

lemma sample_hindu:
  "parseFeed sampleDates url hinduSource hinduRun = Some [hinduGst, hinduWins]"
  by code_simp

lemma sample_express:
  "parseFeed sampleDates url expressSource expressRun = Some [expressGst, expressRbi]"
  by code_simp

lemma feeds_hindu:
  "feeds hinduSource =
     [''https://www.thehindu.com/news/national/feeder/default.rss'',
      ''https://www.thehindu.com/opinion/feeder/default.rss'',
      ''https://www.thehindu.com/sci-tech/feeder/default.rss'',
      ''https://www.thehindu.com/business/Economy/feeder/default.rss'',
      ''https://www.thehindu.com/news/international/feeder/default.rss'']"
  by (simp add: hinduSource_def)

lemma feeds_express:
  "feeds expressSource =
     [''https://indianexpress.com/section/india/feed/'',
      ''https://indianexpress.com/section/opinion/feed/'',
      ''https://indianexpress.com/section/explained/feed/'',
      ''https://indianexpress.com/section/economy/feed/'',
      ''https://indianexpress.com/section/world/feed/'']"
  by (simp add: expressSource_def)

lemma feeds_et:
  "feeds etSource =
     [''https://economictimes.indiatimes.com/news/economy/rssfeeds/1373380680.cms'',
      ''https://economictimes.indiatimes.com/news/politics-and-nation/rssfeeds/1052732854.cms'',
      ''https://economictimes.indiatimes.com/environment/rssfeeds/22977979.cms'',
      ''https://economictimes.indiatimes.com/news/india/rssfeeds/13357270.cms'']"
  by (simp add: etSource_def)

lemma sample_allPromises:
  "allPromises sampleDates sampleNet
   = [Some [hinduGst, hinduWins], Some [], Some [], Some [], Some [],
      Some [expressGst, expressRbi], Some [], Some [], Some [], Some [],
      Some [], Some [], Some [], Some []]"
  by (simp add: allPromises_def RSS_SOURCES_def feeds_hindu feeds_express feeds_et
      sampleNet_def parseFeed_rejected timedOut_def sample_hindu sample_express)

lemma sample_allArticles:
  "allArticles sampleDates sampleNet = Some [hinduGst, hinduWins, expressGst, expressRbi]"
  by (simp add: allArticles_def sample_allPromises)

lemma sample_sorted:
  "sortBy byRecency (dedupFilter {} [hinduGst, hinduWins, expressGst, expressRbi])
   = [expressRbi, hinduWins, hinduGst]"
  by code_simp

lemma sample_deduped: "deduped sampleDates sampleNet = Some [expressRbi, hinduWins, hinduGst]"
  by (simp only: deduped_def sample_allArticles option.map sample_sorted)

lemma handler_payload:
  assumes "handler dateParse net now httpMethod = Some r" and "body r = Json p"
  shows "\<exists>all. allArticles dateParse net = Some all
           \<and> deduped dateParse net = Some (sortBy byRecency (dedupFilter {} all))
           \<and> p = buildPayload (sortBy byRecency (dedupFilter {} all)) now"
proof (cases "httpMethod = ''OPTIONS''")
  case True
  with assms show ?thesis by (auto simp: handler_def)
next
  case False
  show ?thesis
  proof (cases "allArticles dateParse net")
    case None
    with False assms show ?thesis by (simp add: handler_def deduped_def)
  next
    case (Some all)
    with False assms show ?thesis by (auto simp: handler_def deduped_def)
  qed
qed

lemma sample_response:
  "handler sampleDates sampleNet now ''GET''
   = Some \<lparr>statusCode = 200, headers = corsHeaders,
           body = Json (buildPayload [expressRbi, hinduWins, hinduGst] now)\<rparr>"
  by (simp add: handler_def sample_deduped)

lemma sample_body:
  "body \<lparr>statusCode = 200, headers = corsHeaders,
         body = Json (buildPayload [expressRbi, hinduWins, hinduGst] now)\<rparr>
   = Json (buildPayload [expressRbi, hinduWins, hinduGst] now)"
  by simp

section \<open>The response\<close>

text \<open>
  C5. The list \<open>articles\<close> of a response has at most 250 elements and at most \<open>total\<close>
  elements, and \<open>total\<close> is the number of articles that the deduplication leaves, counted
  before the list is cut to 250.
\<close>

theorem C5_articles_capped_total_uncapped:
  assumes "handler dateParse net now httpMethod = Some r" and "body r = Json p"
  shows "length (articles p) \<le> 250 \<and> length (articles p) \<le> total p
         \<and> (\<exists>all ds. allArticles dateParse net = Some all \<and> deduped dateParse net = Some ds
               \<and> total p = length (dedupFilter {} all)
               \<and> articles p = take 250 ds)"
proof -
  from handler_payload [OF assms] obtain all where
    a: "allArticles dateParse net = Some all"
    and d: "deduped dateParse net = Some (sortBy byRecency (dedupFilter {} all))"
    and p: "p = buildPayload (sortBy byRecency (dedupFilter {} all)) now" by auto
  have "total p = length (dedupFilter {} all)"
    "articles p = take 250 (sortBy byRecency (dedupFilter {} all))"
    by (simp_all add: p buildPayload_def length_sortBy)
  moreover from this have "length (articles p) \<le> 250 \<and> length (articles p) \<le> total p"
    by (simp add: length_sortBy)
  ultimately show ?thesis using a d by auto
qed

theorem C5_witness:
  "handler sampleDates sampleNet 1714600009500 ''GET''
     = Some \<lparr>statusCode = 200, headers = corsHeaders,
             body = Json (buildPayload [expressRbi, hinduWins, hinduGst] 1714600009500)\<rparr>
   \<and> length (articles (buildPayload [expressRbi, hinduWins, hinduGst] 1714600009500)) = 3
   \<and> total (buildPayload [expressRbi, hinduWins, hinduGst] 1714600009500) = 3
   \<and> length (dedupFilter {} [hinduGst, hinduWins, expressGst, expressRbi]) = 3"
  using C5_articles_capped_total_uncapped [OF sample_response [of 1714600009500] sample_body]
  by (simp add: buildPayload_def sample_deduped sample_allArticles sample_response)

text \<open>
  C4. In the list \<open>articles\<close> of a response the publish time of every element is at least
  the publish time of the element after it.
\<close>

theorem C4_articles_sorted_by_recency:
  assumes "handler dateParse net now httpMethod = Some r" and "body r = Json p"
    and "Suc i < length (articles p)"
  shows "pubDate (articles p ! Suc i) \<le> pubDate (articles p ! i)"
proof -
  from handler_payload [OF assms(1,2)] obtain all where
    p: "p = buildPayload (sortBy byRecency (dedupFilter {} all)) now" by auto
  have "sorted_wrt (\<lambda>a b. pubDate b \<le> pubDate a) (articles p)"
    using sorted_sortBy [of "dedupFilter {} all"]
    by (simp add: p buildPayload_def sorted_wrt_take)
  with assms(3) show ?thesis
    by (simp add: sorted_wrt_iff_nth_less)
qed

theorem C4_witness:
  "pubDate (articles (buildPayload [expressRbi, hinduWins, hinduGst] 0) ! Suc 0)
   \<le> pubDate (articles (buildPayload [expressRbi, hinduWins, hinduGst] 0) ! 0)
   \<and> pubDate (articles (buildPayload [expressRbi, hinduWins, hinduGst] 0) ! Suc 0) = 1714600000001
   \<and> pubDate (articles (buildPayload [expressRbi, hinduWins, hinduGst] 0) ! 0) = 1714638600000"
  using C4_articles_sorted_by_recency [OF sample_response [of 0] sample_body, of 0]
  by (simp add: buildPayload_def expressRbi_def hinduWins_def)

subsection \<open>What reaches the response\<close>

lemma detectTopics_length: "1 \<le> length (detectTopics t d) \<and> length (detectTopics t d) \<le> 3"
proof -
  have "xs \<noteq> [] \<Longrightarrow> 1 \<le> length (take 3 xs)" for xs :: "string list"
    by (cases xs) simp_all
  then show ?thesis by (simp add: detectTopics_def Let_def)
qed

lemma response_groups:
  assumes "handler dateParse net now httpMethod = Some r" and "body r = Json p"
  shows "\<exists>all ds. allArticles dateParse net = Some all \<and> deduped dateParse net = Some ds
           \<and> ds = sortBy byRecency (dedupFilter {} all)
           \<and> p = buildPayload ds now
           \<and> groupMembers (grouped p) = set ds
           \<and> groupMembers (topicGrouped p) = set ds
           \<and> articles p = take 250 ds"
proof -
  from handler_payload [OF assms] obtain all where
    a: "allArticles dateParse net = Some all"
    and d: "deduped dateParse net = Some (sortBy byRecency (dedupFilter {} all))"
    and p: "p = buildPayload (sortBy byRecency (dedupFilter {} all)) now" by auto
  let ?ds = "sortBy byRecency (dedupFilter {} all)"
  have sub: "b \<in> set all" if "b \<in> set ?ds" for b
    using that set_dedupFilter [of "{}" all] by (auto simp: set_sortBy)
  have src: "source b \<in> id' ` set RSS_SOURCES" if "b \<in> set ?ds" for b
    using allArticles_kept [OF a sub [OF that]] by simp
  have tps: "topics b \<noteq> []" if "b \<in> set ?ds" for b
  proof -
    have "topics b = detectTopics (title b) (description b)"
      using allArticles_kept [OF a sub [OF that]] by simp
    with detectTopics_length [of "title b" "description b"] show ?thesis by auto
  qed
  have "groupMembers (grouped p) = set ?ds"
    using src by (auto simp: p buildPayload_def groupMembers_groupBySource)
  moreover have "groupMembers (topicGrouped p) = set ?ds"
    using tps by (auto simp: p buildPayload_def groupMembers_groupByTopic)
  moreover have "articles p = take 250 ?ds"
    by (simp add: p buildPayload_def)
  ultimately show ?thesis using a d p by simp
qed

lemma responseArticles_deduped:
  assumes "handler dateParse net now httpMethod = Some r" and "body r = Json p"
  shows "\<exists>all. allArticles dateParse net = Some all
           \<and> responseArticles p = set (sortBy byRecency (dedupFilter {} all))
           \<and> responseArticles p \<subseteq> set all"
proof -
  from response_groups [OF assms] obtain all ds where
    a: "allArticles dateParse net = Some all" and ds: "ds = sortBy byRecency (dedupFilter {} all)"
    and g: "groupMembers (grouped p) = set ds" "groupMembers (topicGrouped p) = set ds"
      "articles p = take 250 ds"
    by auto
  have "responseArticles p = set ds"
    using g set_take_subset [of 250 ds] by (auto simp: responseArticles_def)
  moreover have "set ds \<subseteq> set all"
    using set_dedupFilter [of "{}" all] by (simp add: ds set_sortBy)
  ultimately show ?thesis using a ds by auto
qed

lemma response_kept:
  assumes "handler dateParse net now httpMethod = Some r" and "body r = Json p"
    and "a \<in> responseArticles p"
  shows "title a \<noteq> [] \<and> isRelevant (title a) (description a)
         \<and> topics a = detectTopics (title a) (description a)
         \<and> source a \<in> id' ` set RSS_SOURCES"
proof -
  from responseArticles_deduped [OF assms(1,2)] obtain all where
    "allArticles dateParse net = Some all" "responseArticles p \<subseteq> set all" by auto
  with assms(3) allArticles_kept [of dateParse net all a] show ?thesis by auto
qed

lemma sample_responseArticles:
  "responseArticles (buildPayload [expressRbi, hinduWins, hinduGst] now)
   = {expressRbi, hinduWins, hinduGst}"
proof -
  from responseArticles_deduped [OF sample_response [of now] sample_body] obtain all where
    a: "allArticles sampleDates sampleNet = Some all"
    and r: "responseArticles (buildPayload [expressRbi, hinduWins, hinduGst] now)
            = set (sortBy byRecency (dedupFilter {} all))"
    by auto
  from a have "all = [hinduGst, hinduWins, expressGst, expressRbi]"
    by (simp add: sample_allArticles)
  with r have "responseArticles (buildPayload [expressRbi, hinduWins, hinduGst] now)
            = set [expressRbi, hinduWins, hinduGst]"
    by (simp only: sample_sorted)
  then show ?thesis by simp
qed

text \<open>
  C9. Every article in a response carries between one and three topic labels.
\<close>

theorem C9_one_to_three_topics:
  assumes "handler dateParse net now httpMethod = Some r" and "body r = Json p"
    and "a \<in> responseArticles p"
  shows "1 \<le> length (topics a) \<and> length (topics a) \<le> 3"
  using response_kept [OF assms] detectTopics_length [of "title a" "description a"]
  by simp

theorem C9_witness:
  "hinduGst \<in> responseArticles (buildPayload [expressRbi, hinduWins, hinduGst] 0)
   \<and> topics hinduGst = [''Polity & Governance'', ''Economy'']
   \<and> 1 \<le> length (topics hinduGst) \<and> length (topics hinduGst) \<le> 3"
  using C9_one_to_three_topics [OF sample_response [of 0] sample_body, of hinduGst]
  by (simp add: sample_responseArticles) (simp add: hinduGst_def)

lemma isRelevant_relevantText: "isRelevant t d \<longleftrightarrow> relevantText t d"
  by (auto simp: isRelevant_def relevantText_def topicMatches_def ALL_KEYWORDS_def Let_def
      list_ex_iff includes_str_sublist)

text \<open>
  C6. Every article that stands anywhere in a response is relevant: the case-folded
  concatenation of its title and its description contains a keyword of some topic or one
  of the anchor terms \<open>india\<close> and \<open>government\<close>. An entry whose cleaned title and
  description are not relevant is turned into no article.
\<close>

theorem C6_irrelevant_never_in_response:
  assumes "handler dateParse net now httpMethod = Some r" and "body r = Json p"
  shows "(\<forall>a \<in> responseArticles p. relevantText (title a) (description a))
         \<and> (\<forall>src item clk b. normalizeItem dateParse clk src item = Inr (Some b)
               \<longrightarrow> relevantText (title b) (description b))"
proof -
  have "relevantText (title a) (description a)" if "a \<in> responseArticles p" for a
    using response_kept [OF assms that] by (simp add: isRelevant_relevantText)
  moreover have "relevantText (title b) (description b)"
    if "normalizeItem dateParse clk src item = Inr (Some b)" for src item clk b
    using normalizeItem_kept [OF that] by (simp add: isRelevant_relevantText)
  ultimately show ?thesis by blast
qed

theorem C6_witness:
  "hinduWins \<in> responseArticles (buildPayload [expressRbi, hinduWins, hinduGst] 0)
   \<and> relevantText (title hinduWins) (description hinduWins)
   \<and> relevantText ''India wins'' []"
proof -
  have "hinduWins \<in> responseArticles (buildPayload [expressRbi, hinduWins, hinduGst] 0)"
    by (simp add: sample_responseArticles)
  with C6_irrelevant_never_in_response [OF sample_response [of 0] sample_body]
  have "relevantText (title hinduWins) (description hinduWins)" by blast
  with \<open>hinduWins \<in> _\<close> show ?thesis by (simp add: hinduWins_def)
qed

lemma topic_names:
  "map fst UPSC_TOPICS =
     [''Polity & Governance'', ''Economy'', ''Environment & Ecology'', ''Science & Technology'',
      ''International Relations'', ''Social Issues'', ''Defence & Security'',
      ''Infrastructure & Development'']"
  by (simp add: UPSC_TOPICS_def)

lemma detectTopics_names:
  "set (detectTopics t d) \<subseteq> set (map fst UPSC_TOPICS) \<union> {''General''}"
proof -
  have "set (take 3 (map fst (filter P UPSC_TOPICS))) \<subseteq> set (map fst UPSC_TOPICS)"
    for P :: "string \<times> string list \<Rightarrow> bool"
    using set_take_subset [of 3 "map fst (filter P UPSC_TOPICS)"] by auto
  then show ?thesis by (auto simp: detectTopics_def Let_def simp del: set_map)
qed

text \<open>
  C10. The field \<open>topics\<close> of a response is the list of the eight names of the taxonomy,
  without \<open>General\<close>, and every key of \<open>topicGrouped\<close> is one of these names or \<open>General\<close>.
  There is a response in which \<open>General\<close> is a key of \<open>topicGrouped\<close>, so that the keys
  are no subset of the field \<open>topics\<close>.
\<close>

theorem C10_general_key_not_advertised:
  "(\<forall>dateParse net now httpMethod r p.
      handler dateParse net now httpMethod = Some r \<and> body r = Json p \<longrightarrow>
        topics' p =
          [''Polity & Governance'', ''Economy'', ''Environment & Ecology'',
           ''Science & Technology'', ''International Relations'', ''Social Issues'',
           ''Defence & Security'', ''Infrastructure & Development'']
        \<and> ''General'' \<notin> set (topics' p)
        \<and> fst ` set (topicGrouped p) \<subseteq> set (topics' p) \<union> {''General''})
   \<and> (\<exists>dateParse net now httpMethod r p.
        handler dateParse net now httpMethod = Some r \<and> body r = Json p
        \<and> ''General'' \<in> fst ` set (topicGrouped p)
        \<and> \<not> fst ` set (topicGrouped p) \<subseteq> set (topics' p))"
proof (intro conjI allI impI)
  fix dateParse net now httpMethod r p
  assume b: "handler dateParse net now httpMethod = Some r \<and> body r = Json p"
  then have h: "handler dateParse net now httpMethod = Some r" and j: "body r = Json p"
    by simp_all
  from response_groups [OF h j] obtain ds where p: "p = buildPayload ds now"
    and g: "groupMembers (topicGrouped p) = set ds" by auto
  show "topics' p =
          [''Polity & Governance'', ''Economy'', ''Environment & Ecology'',
           ''Science & Technology'', ''International Relations'', ''Social Issues'',
           ''Defence & Security'', ''Infrastructure & Development'']"
    by (simp add: p buildPayload_def topic_names)
  show "''General'' \<notin> set (topics' p)"
    by (simp add: p buildPayload_def topic_names)
  have "set (topics a) \<subseteq> set (map fst UPSC_TOPICS) \<union> {''General''}"
    if "a \<in> set ds" for a
  proof -
    from that g have "a \<in> responseArticles p" by (simp add: responseArticles_def)
    from response_kept [OF h j this] detectTopics_names [of "title a" "description a"]
    show ?thesis by simp
  qed
  then show "fst ` set (topicGrouped p) \<subseteq> set (topics' p) \<union> {''General''}"
    by (auto simp: p buildPayload_def keys_groupByTopic simp del: set_map)
next
  have "''General'' \<in> fst ` set (topicGrouped (buildPayload [expressRbi, hinduWins, hinduGst] 0))"
    by (simp add: buildPayload_def keys_groupByTopic hinduWins_def)
  moreover have "''General'' \<notin> set (topics' (buildPayload [expressRbi, hinduWins, hinduGst] 0))"
    by (simp add: buildPayload_def topic_names)
  ultimately show "\<exists>dateParse net now httpMethod r p.
        handler dateParse net now httpMethod = Some r \<and> body r = Json p
        \<and> ''General'' \<in> fst ` set (topicGrouped p)
        \<and> \<not> fst ` set (topicGrouped p) \<subseteq> set (topics' p)"
    using sample_response [of 0] sample_body [of 0] by blast
qed

theorem C10_witness:
  "handler sampleDates sampleNet 0 ''GET''
     = Some \<lparr>statusCode = 200, headers = corsHeaders,
             body = Json (buildPayload [expressRbi, hinduWins, hinduGst] 0)\<rparr>
   \<and> ''General'' \<notin> set (topics' (buildPayload [expressRbi, hinduWins, hinduGst] 0))
   \<and> fst ` set (topicGrouped (buildPayload [expressRbi, hinduWins, hinduGst] 0))
       = {''Economy'', ''General'', ''Polity & Governance''}"
proof -
  have "fst ` set (topicGrouped (buildPayload [expressRbi, hinduWins, hinduGst] 0))
       = {''Economy'', ''General'', ''Polity & Governance''}"
    by (auto simp: buildPayload_def keys_groupByTopic hinduWins_def hinduGst_def expressRbi_def)
  moreover from C10_general_key_not_advertised sample_response [of 0] sample_body [of 0]
  have "''General'' \<notin> set (topics' (buildPayload [expressRbi, hinduWins, hinduGst] 0))"
    by blast
  ultimately show ?thesis using sample_response [of 0] by simp
qed

subsection \<open>Classification\<close>

lemma distinct_topic_names: "distinct (map fst UPSC_TOPICS)"
  by (simp add: topic_names)












subsection \<open>A publish date that does not parse\<close>

text \<open>
  C2, as the code has it. When the callback throws on one of the first twenty entries of
  an endpoint, as it does with a \<open>RangeError\<close> on a relevant entry whose publish date is
  present and does not parse, the endpoint yields no article at all.
\<close>

theorem C2_unparseable_date_empties_endpoint:
  assumes "fetched run = Parsed doc"
    and "i < length (take 20 (items_of doc))"
    and "normalizeItem dateParse (clock run i) src (take 20 (items_of doc) ! i) = Inl RangeError"
  shows "parseFeed dateParse url src run = Some []"
proof -
  let ?f = "\<lambda>(i, item). normalizeItem dateParse (clock run i) src item"
  let ?xs = "enumerate 0 (take 20 (items_of doc))"
  have "(i, take 20 (items_of doc) ! i) \<in> set ?xs"
    using assms(2) by (simp add: in_set_enumerate_eq)
  moreover have "?f (i, take 20 (items_of doc) ! i) = Inl RangeError"
    using assms(3) by simp
  ultimately obtain e where "mapItems ?f ?xs = Inl e"
    using mapItems_Inl [of "(i, take 20 (items_of doc) ! i)" ?xs ?f RangeError] by auto
  with assms(1) show ?thesis by (simp add: parseFeed_def)
qed

lemma badDate_item:
  "normalizeItem sampleDates 1714600000001 hinduSource
     [(''title'', Str ''India wins''), (''pubDate'', Str ''yesterday evening'')] = Inl RangeError"
  by code_simp

theorem C2_witness:
  "sampleDates ''yesterday evening'' = None
   \<and> normalizeItem sampleDates (clock badDateRun 1) hinduSource
       [(''title'', Str ''India wins''), (''pubDate'', Str ''yesterday evening'')] = Inl RangeError
   \<and> parseFeed sampleDates ''https://www.thehindu.com/opinion/feeder/default.rss''
       hinduSource badDateRun = Some []"
proof -
  have c: "clock badDateRun (Suc 0) = 1714600000001" "clock badDateRun 1 = 1714600000001"
    by (simp_all add: badDateRun_def)
  have f: "fetched badDateRun = Parsed (RssChannel
        [[(''title'', Str ''GST bill''),
          (''pubDate'', Str ''Wed, 01 May 2024 10:00:00 GMT'')],
         [(''title'', Str ''India wins''),
          (''pubDate'', Str ''yesterday evening'')]])"
    by (simp add: badDateRun_def)
  have "parseFeed sampleDates ''https://www.thehindu.com/opinion/feeder/default.rss''
       hinduSource badDateRun = Some []"
    by (rule C2_unparseable_date_empties_endpoint [OF f, of 1])
      (simp_all add: items_of_def c badDate_item)
  then show ?thesis using badDate_item c by (simp add: sampleDates_def)
qed


subsection \<open>Which of two articles with one key is kept\<close>

lemma parseFeed_cong:
  "fetched run' = fetched run \<Longrightarrow> clock run' = clock run
   \<Longrightarrow> parseFeed dateParse url src run' = parseFeed dateParse url src run"
  by (cases "fetched run") (simp_all add: parseFeed_def)

lemma handler_ignores_settledAt:
  assumes "\<forall>u. fetched (net' u) = fetched (net u) \<and> clock (net' u) = clock (net u)"
  shows "handler dateParse net' now httpMethod = handler dateParse net now httpMethod"
proof -
  have "parseFeed dateParse url src (net' url) = parseFeed dateParse url src (net url)" for url src
    by (rule parseFeed_cong) (simp_all add: assms)
  then have "allPromises dateParse net' = allPromises dateParse net"
    by (simp add: allPromises_def)
  then show ?thesis by (simp add: handler_def deduped_def allArticles_def)
qed

lemma mapItems_Inr_map:
  "mapItems f xs = Inr rs
   \<Longrightarrow> rs = map (\<lambda>x. case f x of Inl e \<Rightarrow> None | Inr r \<Rightarrow> r) xs"
proof (induction xs arbitrary: rs)
  case Nil
  then show ?case by simp
next
  case (Cons x xs)
  then show ?case by (cases "f x"; cases "mapItems f xs") auto
qed

lemma map_filter_map: "List.map_filter (\<lambda>r. r) (map g xs) = List.map_filter g xs"
proof (induction xs)
  case Nil
  show ?case by simp
next
  case (Cons x xs)
  then show ?case by (cases "g x") simp_all
qed

lemma parseFeed_document_order:
  assumes "parseFeed dateParse url src run = Some as" and "fetched run = Parsed doc"
    and "as \<noteq> []"
  shows "as = List.map_filter
           (\<lambda>(i, item). case normalizeItem dateParse (clock run i) src item of
                           Inl e \<Rightarrow> None | Inr r \<Rightarrow> r)
           (enumerate 0 (take 20 (items_of doc)))"
proof (cases "mapItems (\<lambda>(i, item). normalizeItem dateParse (clock run i) src item)
                (enumerate 0 (take 20 (items_of doc)))")
  case (Inl e)
  with assms show ?thesis by (simp add: parseFeed_def)
next
  case (Inr rs)
  from mapItems_Inr_map [OF Inr] have "List.map_filter (\<lambda>r. r) rs
      = List.map_filter (\<lambda>x. case (case x of (i, item) \<Rightarrow>
            normalizeItem dateParse (clock run i) src item) of Inl e \<Rightarrow> None | Inr r \<Rightarrow> r)
          (enumerate 0 (take 20 (items_of doc)))"
    by (simp only: map_filter_map)
  moreover have "(\<lambda>x. case (case x of (i, item) \<Rightarrow>
            normalizeItem dateParse (clock run i) src item) of Inl e \<Rightarrow> None | Inr r \<Rightarrow> r)
      = (\<lambda>(i, item). case normalizeItem dateParse (clock run i) src item of
                           Inl e \<Rightarrow> None | Inr r \<Rightarrow> r)"
    by (rule ext) (simp add: split_beta)
  ultimately show ?thesis using assms(1,2) Inr by (simp add: parseFeed_def)
qed

lemma distinct_detectTopics: "distinct (detectTopics t d)"
proof -
  have "distinct (map fst (filter P UPSC_TOPICS))" for P :: "string \<times> string list \<Rightarrow> bool"
    using distinct_topic_names by (rule distinct_map_filter)
  then show ?thesis by (simp add: detectTopics_def Let_def)
qed

lemma map_of_fold_pushTopic:
  "distinct ts \<Longrightarrow> map_of (fold (pushTopic a) ts g) k
     = (if k \<in> set ts then Some ((case map_of g k of None \<Rightarrow> [] | Some l \<Rightarrow> l) @ [a])
        else map_of g k)"
  by (induction ts arbitrary: g) (auto simp: map_of_pushTopic)

lemma map_of_fold_topics:
  assumes "\<forall>a \<in> set ds. distinct (topics a)"
  shows "map_of (fold (\<lambda>a g. fold (pushTopic a) (topics a) g) ds g) k
     = (case map_of g k of
          None \<Rightarrow> (if filter (\<lambda>a. k \<in> set (topics a)) ds = [] then None
                    else Some (filter (\<lambda>a. k \<in> set (topics a)) ds))
        | Some l \<Rightarrow> Some (l @ filter (\<lambda>a. k \<in> set (topics a)) ds))"
  using assms
proof (induction ds arbitrary: g)
  case Nil
  show ?case by (simp split: option.splits)
next
  case (Cons a ds)
  from Cons.prems have d: "distinct (topics a)" and r: "\<forall>a \<in> set ds. distinct (topics a)"
    by simp_all
  show ?case
    by (cases "map_of g k") (simp_all add: Cons.IH [OF r] map_of_fold_pushTopic [OF d])
qed

lemma groupByTopic_lists:
  assumes "\<forall>a \<in> set ds. distinct (topics a)" and "(t, l) \<in> set (groupByTopic ds)"
  shows "l = filter (\<lambda>a. t \<in> set (topics a)) ds"
proof -
  from assms(2) have "map_of (groupByTopic ds) t = Some l"
    using distinct_groupByTopic [of ds] by simp
  then show ?thesis
    by (simp add: groupByTopic_def map_of_fold_topics [OF assms(1)] split: if_splits)
qed

lemma groupBySource_lists:
  assumes "(k, l) \<in> set (groupBySource ds)"
  shows "l = filter (\<lambda>a. source a = k) ds"
proof -
  from assms have "map_of (groupBySource ds) k = Some l"
    using distinct_groupBySource [of ds] by simp
  then show ?thesis by (simp add: map_of_groupBySource split: if_splits)
qed

text \<open>
  C3, as the code has it. No list of a response holds two articles with the same
  deduplication key, and every key of a collected article is the key of an article of the
  response. The article kept for a key is the first one with this key in the list of
  collected articles. This list follows the registry, not the moments at which the calls
  settle: the sources in their order, the endpoints of a source in their order, and the
  entries of an endpoint in the order of the document.
\<close>

theorem C3_first_in_registry_order_kept:
  assumes "handler dateParse net now httpMethod = Some r" and "body r = Json p"
  shows "\<exists>all ass.
      allArticles dateParse net = Some all
    \<and> map (\<lambda>(src, url). parseFeed dateParse url src (net url)) endpoints = map Some ass
    \<and> all = concat ass
    \<and> distinct (map (\<lambda>a. dedupKey (title a)) (articles p))
    \<and> (\<forall>(k, l) \<in> set (grouped p) \<union> set (topicGrouped p).
          distinct (map (\<lambda>a. dedupKey (title a)) l))
    \<and> (\<forall>a \<in> responseArticles p.
          find (\<lambda>b. dedupKey (title b) = dedupKey (title a)) all = Some a)
    \<and> (\<forall>b \<in> set all. \<exists>a \<in> responseArticles p. dedupKey (title a) = dedupKey (title b))
    \<and> (\<forall>src url doc as.
          parseFeed dateParse url src (net url) = Some as \<and> fetched (net url) = Parsed doc
          \<and> as \<noteq> [] \<longrightarrow>
          as = List.map_filter
                 (\<lambda>(i, item). case normalizeItem dateParse (clock (net url) i) src item of
                                 Inl e \<Rightarrow> None | Inr r \<Rightarrow> r)
                 (enumerate 0 (take 20 (items_of doc))))
    \<and> (\<forall>net'. (\<forall>u. fetched (net' u) = fetched (net u) \<and> clock (net' u) = clock (net u))
          \<longrightarrow> handler dateParse net' now httpMethod = handler dateParse net now httpMethod)"
proof -
  from response_groups [OF assms] obtain all ds where
    a: "allArticles dateParse net = Some all"
    and ds: "ds = sortBy byRecency (dedupFilter {} all)"
    and p: "p = buildPayload ds now"
    and g: "groupMembers (grouped p) = set ds" "groupMembers (topicGrouped p) = set ds"
      "articles p = take 250 ds"
    by auto
  from allArticles_Some [OF a] obtain ass where
    m: "map (\<lambda>(src, url). parseFeed dateParse url src (net url)) endpoints = map Some ass"
    and c: "all = concat ass" by auto
  have r: "responseArticles p = set ds"
    using g set_take_subset [of 250 ds] by (auto simp: responseArticles_def)
  have sub: "b \<in> set all" if "b \<in> set ds" for b
    using that set_dedupFilter [of "{}" all] by (auto simp: ds set_sortBy)
  have dk: "distinct (map (\<lambda>a. dedupKey (title a)) ds)"
    by (simp add: ds distinct_map_sortBy distinct_dedupFilter)
  have one: "distinct (map (\<lambda>a. dedupKey (title a)) (articles p))"
    using dk by (simp add: g(3) take_map [symmetric] distinct_take)
  have dt: "\<forall>b \<in> set ds. distinct (topics b)"
  proof
    fix b assume "b \<in> set ds"
    from allArticles_kept [OF a sub [OF this]] show "distinct (topics b)"
      by (simp add: distinct_detectTopics)
  qed
  have grp: "\<forall>(k, l) \<in> set (grouped p) \<union> set (topicGrouped p).
          distinct (map (\<lambda>a. dedupKey (title a)) l)"
  proof (intro ballI, clarify)
    fix k l assume "(k, l) \<in> set (grouped p) \<union> set (topicGrouped p)"
    then have "l = filter (\<lambda>a. source a = k) ds \<or> l = filter (\<lambda>a. k \<in> set (topics a)) ds"
      using groupBySource_lists [of k l ds] groupByTopic_lists [OF dt, of k l]
      by (auto simp: p buildPayload_def)
    with dk show "distinct (map (\<lambda>a. dedupKey (title a)) l)"
      by (auto simp: distinct_map_filter)
  qed
  have nonempty: "\<forall>b \<in> set all. title b \<noteq> []"
  proof
    fix b assume "b \<in> set all"
    from allArticles_kept [OF a this] show "title b \<noteq> []" by simp
  qed
  have first: "\<forall>a \<in> responseArticles p.
          find (\<lambda>b. dedupKey (title b) = dedupKey (title a)) all = Some a"
  proof
    fix x assume "x \<in> responseArticles p"
    then have "x \<in> set (dedupFilter {} all)" by (simp add: r ds set_sortBy)
    from dedupFilter_first [OF this nonempty]
    show "find (\<lambda>b. dedupKey (title b) = dedupKey (title x)) all = Some x" .
  qed
  have cov: "\<forall>b \<in> set all. \<exists>a \<in> responseArticles p. dedupKey (title a) = dedupKey (title b)"
  proof
    fix b assume b: "b \<in> set all"
    with nonempty have "title b \<noteq> []" by simp
    from dedupFilter_covers [OF b this, of "{}"]
    show "\<exists>a \<in> responseArticles p. dedupKey (title a) = dedupKey (title b)"
      by (simp add: r ds set_sortBy)
  qed
  have order: "\<forall>src url doc as.
          parseFeed dateParse url src (net url) = Some as \<and> fetched (net url) = Parsed doc
          \<and> as \<noteq> [] \<longrightarrow>
          as = List.map_filter
                 (\<lambda>(i, item). case normalizeItem dateParse (clock (net url) i) src item of
                                 Inl e \<Rightarrow> None | Inr r \<Rightarrow> r)
                 (enumerate 0 (take 20 (items_of doc)))"
  proof (intro allI impI)
    fix src url doc as
    assume h: "parseFeed dateParse url src (net url) = Some as \<and> fetched (net url) = Parsed doc
          \<and> as \<noteq> []"
    then have "parseFeed dateParse url src (net url) = Some as" "fetched (net url) = Parsed doc"
      "as \<noteq> []" by simp_all
    then show "as = List.map_filter
                 (\<lambda>(i, item). case normalizeItem dateParse (clock (net url) i) src item of
                                 Inl e \<Rightarrow> None | Inr r \<Rightarrow> r)
                 (enumerate 0 (take 20 (items_of doc)))"
      by (rule parseFeed_document_order)
  qed
  have indep: "\<forall>net'. (\<forall>u. fetched (net' u) = fetched (net u) \<and> clock (net' u) = clock (net u))
          \<longrightarrow> handler dateParse net' now httpMethod = handler dateParse net now httpMethod"
  proof (intro allI impI)
    fix net' :: "string \<Rightarrow> endpoint_run"
    assume "\<forall>u. fetched (net' u) = fetched (net u) \<and> clock (net' u) = clock (net u)"
    then show "handler dateParse net' now httpMethod = handler dateParse net now httpMethod"
      by (rule handler_ignores_settledAt)
  qed
  show ?thesis
    by (intro exI [of _ all] exI [of _ ass] conjI a m c one grp first cov order indep)
qed

theorem C3_witness:
  "hinduGst \<in> responseArticles (buildPayload [expressRbi, hinduWins, hinduGst] 0)
   \<and> distinct (map (\<lambda>a. dedupKey (title a))
        (articles (buildPayload [expressRbi, hinduWins, hinduGst] 0)))
   \<and> find (\<lambda>b. dedupKey (title b) = dedupKey (title hinduGst))
        [hinduGst, hinduWins, expressGst, expressRbi] = Some hinduGst"
proof -
  have h: "hinduGst \<in> responseArticles (buildPayload [expressRbi, hinduWins, hinduGst] 0)"
    by (simp add: sample_responseArticles)
  from C3_first_in_registry_order_kept [OF sample_response [of 0] sample_body]
  obtain all where a: "allArticles sampleDates sampleNet = Some all"
    and d: "distinct (map (\<lambda>a. dedupKey (title a))
        (articles (buildPayload [expressRbi, hinduWins, hinduGst] 0)))"
    and f: "\<forall>a \<in> responseArticles (buildPayload [expressRbi, hinduWins, hinduGst] 0).
          find (\<lambda>b. dedupKey (title b) = dedupKey (title a)) all = Some a"
    by auto
  from a have "all = [hinduGst, hinduWins, expressGst, expressRbi]"
    by (simp add: sample_allArticles)
  with f h have "find (\<lambda>b. dedupKey (title b) = dedupKey (title hinduGst))
        [hinduGst, hinduWins, expressGst, expressRbi] = Some hinduGst"
    by simp
  with h d show ?thesis by simp
qed

lemma sample_same_key: "dedupKey (title expressGst) = dedupKey (title hinduGst)"
  by code_simp

theorem C3_counterexample:
  "settledAt (sampleNet ''https://indianexpress.com/section/india/feed/'')
     < settledAt (sampleNet ''https://www.thehindu.com/news/national/feeder/default.rss'')
   \<and> parseFeed sampleDates ''https://indianexpress.com/section/india/feed/''
        expressSource (sampleNet ''https://indianexpress.com/section/india/feed/'')
       = Some [expressGst, expressRbi]
   \<and> parseFeed sampleDates ''https://www.thehindu.com/news/national/feeder/default.rss''
        hinduSource (sampleNet ''https://www.thehindu.com/news/national/feeder/default.rss'')
       = Some [hinduGst, hinduWins]
   \<and> dedupKey (title expressGst) = dedupKey (title hinduGst)
   \<and> handler sampleDates sampleNet 0 ''GET''
       = Some \<lparr>statusCode = 200, headers = corsHeaders,
               body = Json (buildPayload [expressRbi, hinduWins, hinduGst] 0)\<rparr>
   \<and> hinduGst \<in> responseArticles (buildPayload [expressRbi, hinduWins, hinduGst] 0)
   \<and> expressGst \<notin> responseArticles (buildPayload [expressRbi, hinduWins, hinduGst] 0)"
proof -
  have n: "sampleNet ''https://indianexpress.com/section/india/feed/'' = expressRun"
    "sampleNet ''https://www.thehindu.com/news/national/feeder/default.rss'' = hinduRun"
    by (simp_all add: sampleNet_def)
  have s: "settledAt expressRun < settledAt hinduRun"
    by (simp add: hinduRun_def expressRun_def)
  have x: "expressGst \<notin> {expressRbi, hinduWins, hinduGst}"
    by (simp add: expressGst_def expressRbi_def hinduWins_def hinduGst_def)
  show ?thesis
    by (simp only: n s sample_hindu sample_express sample_same_key sample_response
        sample_responseArticles x simp_thms) simp
qed

subsection \<open>A body that never arrives\<close>

text \<open>
  C8, as the code has it. When the headers of one endpoint arrive and its body never
  does, nothing ends the call for this endpoint: the abort timer is cleared before the
  body is read. The call never settles, so neither does the wait for all calls, and the
  handler never answers. A call that fails in a way that settles (the fetch rejects, the
  status is not 2xx, reading the body rejects, the XML parser rejects) is fulfilled with
  the empty list.
\<close>

theorem C8_stalled_body_never_answers:
  assumes "(src, u) \<in> set endpoints"
    and "fetched (net u) = BodyStalls"
    and "httpMethod \<noteq> ''OPTIONS''"
  shows "parseFeed dateParse u src (net u) = None
         \<and> allArticles dateParse net = None
         \<and> handler dateParse net now httpMethod = None
         \<and> (\<forall>run url' src'.
               fetched run \<in> {FetchRejected, StatusNotOk, TextRejected, XmlRejected}
               \<longrightarrow> parseFeed dateParse url' src' run = Some [])"
proof -
  have p: "parseFeed dateParse u src (net u) = None"
    using assms(2) by (simp add: parseFeed_def)
  have "(case (src, u) of (src, url) \<Rightarrow> parseFeed dateParse url src (net url))
        \<in> set (allPromises dateParse net)"
    unfolding allPromises_endpoints set_map using assms(1) by (rule imageI)
  with p have "None \<in> set (allPromises dateParse net)" by simp
  then have a: "allArticles dateParse net = None"
    by (simp add: allArticles_def those_None)
  with assms(3) have h: "handler dateParse net now httpMethod = None"
    by (simp add: handler_def deduped_def)
  have "\<forall>run url' src'.
      fetched run \<in> {FetchRejected, StatusNotOk, TextRejected, XmlRejected}
      \<longrightarrow> parseFeed dateParse url' src' run = Some []"
    by (auto simp: parseFeed_def)
  with p a h show ?thesis by simp
qed

theorem C8_witness:
  "(hinduSource, ''https://www.thehindu.com/opinion/feeder/default.rss'') \<in> set endpoints
   \<and> fetched (stalledNet ''https://www.thehindu.com/opinion/feeder/default.rss'') = BodyStalls
   \<and> fetched (stalledNet ''https://indianexpress.com/section/india/feed/'') = fetched expressRun
   \<and> handler sampleDates stalledNet 0 ''GET'' = None"
proof -
  have e: "(hinduSource, ''https://www.thehindu.com/opinion/feeder/default.rss'') \<in> set endpoints"
    by (simp add: endpoints_sources RSS_SOURCES_def feeds_hindu)
  have s: "fetched (stalledNet ''https://www.thehindu.com/opinion/feeder/default.rss'') = BodyStalls"
    by (simp add: stalledNet_def stalledRun_def)
  have x: "fetched (stalledNet ''https://indianexpress.com/section/india/feed/'') = fetched expressRun"
    by (simp add: stalledNet_def sampleNet_def)
  have g: "''GET'' \<noteq> ''OPTIONS''" by simp
  from C8_stalled_body_never_answers [of hinduSource
      "''https://www.thehindu.com/opinion/feeder/default.rss''" stalledNet "''GET''"
      sampleDates 0, OF e s g] e s x
  show ?thesis by simp
qed

subsection \<open>Plain strings\<close>
























subsection \<open>The crowded run, evaluated\<close>
















subsection \<open>Identifiers of plain titles\<close>


lemma b64_length:
  "length ''ABCDEFGHIJKLMNOPQRSTUVWXYZabcdefghijklmnopqrstuvwxyz0123456789+/'' = 64"
  by simp














subsection \<open>Groups and the cut at 250\<close>






end
